theory Spec2Isabelle
  imports Main
begin

section \<open>Messages, exceptions and call outcomes\<close>

text \<open>
  The client of \<^verbatim>\<open>daisy/tcp/tcp_client.py\<close> exchanges message objects with a server.
  The receive loop distinguishes one class only, \<^verbatim>\<open>AckClientDisconnect\<close>; the client
  itself sends \<^verbatim>\<open>NotifyClientDisconnect\<close>. Every other message is an opaque payload.
\<close>

datatype message = AckClientDisconnect | NotifyClientDisconnect | Payload string

text \<open>
  Exceptions are values. \<^verbatim>\<open>NotConnected\<close> is raised by the client, \<^verbatim>\<open>StreamClosedError\<close>
  is what the source says the stream raises, \<^verbatim>\<open>QueueEmpty\<close> and \<^verbatim>\<open>ValueError\<close> are the two
  exceptions of Python's \<^verbatim>\<open>queue.Queue.get\<close>, and \<^verbatim>\<open>OtherError\<close> stands for any other
  exception object.
\<close>

datatype exn = NotConnected | StreamClosedError | QueueEmpty | ValueError | OtherError string

datatype 'a outcome = Raised exn | Returned 'a

section \<open>The stream collaborator\<close>

text \<open>
  Modelled from the spec: the class \<^verbatim>\<open>TCPStream\<close> (\<^verbatim>\<open>tcp_stream.py\<close>) is not part of the
  sources at hand. The spec gives its contract: sending one message either succeeds or
  fails with a transport error, and closing releases the transport. A stream object
  records the messages written to it and the number of \<^verbatim>\<open>close()\<close> calls made on it;
  \<open>send_fault\<close> and \<open>close_fault\<close> say whether (and with what) these operations raise.
\<close>

record tcp_stream =
  sent :: "message list"
  close_calls :: nat
  send_fault :: "exn option"
  close_fault :: "exn option"

definition stream_send_message :: "tcp_stream \<Rightarrow> message \<Rightarrow> exn + tcp_stream" where
  "stream_send_message s m =
     (case send_fault s of
        Some e \<Rightarrow> Inl e
      | None \<Rightarrow> Inr (s\<lparr>sent := sent s @ [m]\<rparr>))"

definition stream_close :: "tcp_stream \<Rightarrow> exn option \<times> tcp_stream" where
  "stream_close s = (close_fault s, s\<lparr>close_calls := Suc (close_calls s)\<rparr>)"

text \<open>
  What one \<^verbatim>\<open>await self.stream._get_message()\<close> yields: a message, or an exception.
\<close>

datatype event = Message message | Failure exn

text \<open>
  What \<^verbatim>\<open>await self.client.connect(host, port)\<close> does in \<^verbatim>\<open>_connect\<close>: it never
  completes, it raises, or it yields a transport that is wrapped into a stream object.
\<close>

datatype conn_outcome = ConnPending | ConnRaised exn | ConnEstablished tcp_stream

section \<open>The client object\<close>

text \<open>
  The callables handed to \<^verbatim>\<open>ioloop.add_callback\<close>: \<^verbatim>\<open>self._connect\<close>, \<^verbatim>\<open>self._receive\<close>
  and \<^verbatim>\<open>self.ioloop.stop\<close>.
\<close>

datatype callback = CbConnect | CbReceive | CbStop

text \<open>
  The fields of \<^verbatim>\<open>TCPClient\<close>. \<open>callbacks\<close> lists the \<^verbatim>\<open>add_callback\<close> calls made on the
  client's IOLoop, in order. \<open>dropped\<close> holds the stream objects whose reference
  \<^verbatim>\<open>self.stream\<close> has been cleared or overwritten: the objects outlive the reference,
  and the close calls made on them stay visible there.
\<close>

record client =
  host :: string
  port :: int
  stream :: "tcp_stream option"
  message_queue :: "message list"
  exception_queue :: "exn list"
  callbacks :: "callback list"
  dropped :: "tcp_stream list"

definition add_callback :: "client \<Rightarrow> callback \<Rightarrow> client" where
  "add_callback c cb = c\<lparr>callbacks := callbacks c @ [cb]\<rparr>"

text \<open>
  An IOLoop on which \<^verbatim>\<open>stop\<close> has been scheduled runs no callback added after it.
\<close>

definition ioloop_stopped :: "client \<Rightarrow> bool" where
  "ioloop_stopped c = (CbStop \<in> set (callbacks c))"

text \<open>\<^verbatim>\<open>connected\<close>: \<^verbatim>\<open>return self.stream is not None\<close>.\<close>

definition connected :: "client \<Rightarrow> bool" where
  "connected c = (stream c \<noteq> None)"

text \<open>
  \<^verbatim>\<open>_check_for_errors\<close>: a non-blocking get on the exception queue; the exception found
  is gone from the queue and is raised, an empty queue makes the call return. The
  \<^verbatim>\<open>raise exception\<close> stands inside the \<^verbatim>\<open>try\<close> whose handler is
  \<^verbatim>\<open>except queue.Empty: return\<close>, so when the exception found is itself a
  \<^verbatim>\<open>queue.Empty\<close> the handler catches it and the call returns.
\<close>

definition check_for_errors :: "client \<Rightarrow> unit outcome \<times> client" where
  "check_for_errors c =
     (case exception_queue c of
        [] \<Rightarrow> (Returned (), c)
      | e # es \<Rightarrow>
          if e = QueueEmpty then (Returned (), c\<lparr>exception_queue := es\<rparr>)
          else (Raised e, c\<lparr>exception_queue := es\<rparr>))"

text \<open>\<^verbatim>\<open>send_message\<close>.\<close>

definition send_message :: "client \<Rightarrow> message \<Rightarrow> unit outcome \<times> client" where
  "send_message c m =
     (case check_for_errors c of
        (Raised e, c') \<Rightarrow> (Raised e, c')
      | (Returned _, c') \<Rightarrow>
          (case stream c' of
             None \<Rightarrow> (Raised NotConnected, c')
           | Some s \<Rightarrow>
               (case stream_send_message s m of
                  Inl e \<Rightarrow> (Raised e, c')
                | Inr s' \<Rightarrow> (Returned (), c'\<lparr>stream := Some s'\<rparr>))))"

text \<open>
  Python's \<^verbatim>\<open>queue.Queue.get(block=True, timeout=t)\<close> on the queue contents present
  during the call. Without a timeout it waits for an item: on an empty queue that no
  one fills, it never returns (\<open>None\<close>). A negative timeout raises \<^verbatim>\<open>ValueError\<close>
  whatever the queue holds; otherwise an empty queue raises \<^verbatim>\<open>queue.Empty\<close> when the
  timeout has passed.
\<close>

definition queue_get :: "'a list \<Rightarrow> int option \<Rightarrow> (exn + 'a \<times> 'a list) option" where
  "queue_get q timeout =
     (case timeout of
        None \<Rightarrow> (case q of [] \<Rightarrow> None | x # xs \<Rightarrow> Some (Inr (x, xs)))
      | Some t \<Rightarrow>
          if t < 0 then Some (Inl ValueError)
          else (case q of [] \<Rightarrow> Some (Inl QueueEmpty) | x # xs \<Rightarrow> Some (Inr (x, xs))))"

text \<open>
  \<^verbatim>\<open>get_message\<close>: only \<^verbatim>\<open>queue.Empty\<close> is caught and turned into the return value
  \<^verbatim>\<open>None\<close>.
\<close>

definition get_message :: "client \<Rightarrow> int option \<Rightarrow> (message option outcome \<times> client) option" where
  "get_message c timeout =
     (case check_for_errors c of
        (Raised e, c') \<Rightarrow> Some (Raised e, c')
      | (Returned _, c') \<Rightarrow>
          if \<not> connected c' then Some (Raised NotConnected, c')
          else (case queue_get (message_queue c') timeout of
                  None \<Rightarrow> None
                | Some (Inl e) \<Rightarrow>
                    if e = QueueEmpty then Some (Returned None, c') else Some (Raised e, c')
                | Some (Inr (m, q)) \<Rightarrow> Some (Returned (Some m), c'\<lparr>message_queue := q\<rparr>)))"

text \<open>
  \<^verbatim>\<open>_connect\<close>: an exception of the connection attempt is put on the exception queue;
  otherwise \<^verbatim>\<open>self.stream\<close> is set (a reference held before is overwritten).
  \<open>None\<close>: the coroutine never completes.
\<close>

definition connect_coro :: "client \<Rightarrow> conn_outcome \<Rightarrow> client option" where
  "connect_coro c oc =
     (case oc of
        ConnPending \<Rightarrow> None
      | ConnRaised e \<Rightarrow> Some (c\<lparr>exception_queue := exception_queue c @ [e]\<rparr>)
      | ConnEstablished s \<Rightarrow>
          Some (c\<lparr>stream := Some s,
                 dropped := (case stream c of None \<Rightarrow> dropped c | Some old \<Rightarrow> dropped c @ [old])\<rparr>))"

text \<open>
  The polling loop of \<^verbatim>\<open>connect\<close>,
  \<^verbatim>\<open>while not self.connected(): self._check_for_errors(); time.sleep(.1)\<close>, on a client
  that the IOLoop no longer changes: it ends when the client is connected or when
  \<^verbatim>\<open>_check_for_errors\<close> raises; each turn takes one exception off the queue, and with the
  queue empty nothing ends the loop (\<open>None\<close>).
\<close>

function wait_connected :: "client \<Rightarrow> (unit outcome \<times> client) option" where
  "wait_connected c =
     (if connected c then Some (Returned (), c)
      else if exception_queue c = [] then None
      else
        (case check_for_errors c of
           (Raised e, c') \<Rightarrow> Some (Raised e, c')
         | (Returned _, c') \<Rightarrow> wait_connected c'))"
  by pat_completeness auto
termination
  by (relation "measure (\<lambda>c. length (exception_queue c))")
    (auto simp: check_for_errors_def split: list.splits if_splits)

declare wait_connected.simps [simp del]

text \<open>
  \<^verbatim>\<open>connect\<close>: schedule \<^verbatim>\<open>_connect\<close>, poll, then schedule \<^verbatim>\<open>_receive\<close>. \<open>oc\<close> is what
  the scheduled \<^verbatim>\<open>_connect\<close> meets. The first turn of the polling loop sees the client
  as it is at the call (the coroutine has a network round trip ahead of it); the later
  ones see it after \<^verbatim>\<open>_connect\<close> has completed, when it does: it does not on an IOLoop
  that is stopped, nor when the connection attempt stays pending. The state returned
  is the one at the moment \<^verbatim>\<open>connect\<close> returns or raises.
\<close>

definition connect :: "client \<Rightarrow> conn_outcome \<Rightarrow> (unit outcome \<times> client) option" where
  "connect c oc =
     (let c1 = add_callback c CbConnect in
      if connected c1 then Some (Returned (), add_callback c1 CbReceive)
      else
        (case check_for_errors c1 of
           (Raised e, c2) \<Rightarrow> Some (Raised e, c2)
         | (Returned _, c2) \<Rightarrow>
             (case wait_connected
                     (case (if ioloop_stopped c then None else connect_coro c2 oc) of
                        None \<Rightarrow> c2
                      | Some c3 \<Rightarrow> c3) of
                None \<Rightarrow> None
              | Some (Raised e, c4) \<Rightarrow> Some (Raised e, c4)
              | Some (Returned _, c4) \<Rightarrow> Some (Returned (), add_callback c4 CbReceive))))"

text \<open>
  \<^verbatim>\<open>__init__\<close>: the fields as assigned, a fresh IOLoop, then \<^verbatim>\<open>self.connect()\<close>.
\<close>

definition new_client :: "string \<Rightarrow> int \<Rightarrow> client" where
  "new_client h p =
     \<lparr>host = h, port = p, stream = None, message_queue = [], exception_queue = [],
      callbacks = [], dropped = []\<rparr>"

definition init :: "string \<Rightarrow> int \<Rightarrow> conn_outcome \<Rightarrow> (unit outcome \<times> client) option" where
  "init h p oc = connect (new_client h p) oc"

text \<open>
  The two teardown blocks of \<^verbatim>\<open>_receive\<close> have the same shape,
  \<^verbatim>\<open>try: ... self.stream.close() finally: self.stream = None; return\<close>:
  the stream is closed, the reference cleared, and the \<^verbatim>\<open>return\<close> inside \<^verbatim>\<open>finally\<close>
  discards an exception raised by \<^verbatim>\<open>close()\<close>.
\<close>

definition close_and_clear :: "client \<Rightarrow> tcp_stream \<Rightarrow> client" where
  "close_and_clear c s =
     (case stream_close s of
        (_, s') \<Rightarrow> c\<lparr>stream := None, dropped := dropped c @ [s']\<rparr>)"

text \<open>
  \<^verbatim>\<open>_receive\<close>, run on the events the stream delivers, in order. With no event left
  the coroutine is suspended in its \<^verbatim>\<open>await\<close>.
\<close>

datatype loop_status = Awaiting | Exited

fun receive :: "client \<Rightarrow> event list \<Rightarrow> loop_status \<times> client" where
  "receive c [] = (if connected c then Awaiting else Exited, c)"
| "receive c (ev # evs) =
     (case stream c of
        None \<Rightarrow> (Exited, c)
      | Some s \<Rightarrow>
          (case ev of
             Message m \<Rightarrow>
               if m = AckClientDisconnect then (Exited, close_and_clear c s)
               else receive (c\<lparr>message_queue := message_queue c @ [m]\<rparr>) evs
           | Failure e \<Rightarrow>
               (Exited, close_and_clear (c\<lparr>exception_queue := exception_queue c @ [e]\<rparr>) s)))"

text \<open>
  \<^verbatim>\<open>disconnect\<close>, first part: the test of \<^verbatim>\<open>connected()\<close> with its warning and early
  return, and the sending of \<^verbatim>\<open>NotifyClientDisconnect\<close>. \<open>Inl\<close>: the call is over (it
  returned early, or the send raised), with the warnings logged, the outcome and the
  client. \<open>Inr\<close>: the notification is on the wire and the caller goes on to poll.
\<close>

definition disconnect_notify :: "client \<Rightarrow> (string list \<times> unit outcome \<times> client) + client" where
  "disconnect_notify c =
     (case stream c of
        None \<Rightarrow> Inl ([''Called disconnect() on disconnected client''], Returned (), c)
      | Some s \<Rightarrow>
          (case stream_send_message s NotifyClientDisconnect of
             Inl e \<Rightarrow> Inl ([], Raised e, c)
           | Inr s' \<Rightarrow> Inr (c\<lparr>stream := Some s'\<rparr>)))"

text \<open>
  \<^verbatim>\<open>disconnect\<close>. \<open>evs\<close> is what the stream delivers to the receive loop while the
  caller polls \<^verbatim>\<open>while self.connected(): time.sleep(.1)\<close>; when the client is still
  connected after them, nothing ends the polling (\<open>None\<close>). Then \<^verbatim>\<open>ioloop.stop\<close> is
  scheduled.
\<close>

definition disconnect :: "client \<Rightarrow> event list \<Rightarrow> (string list \<times> unit outcome \<times> client) option" where
  "disconnect c evs =
     (case disconnect_notify c of
        Inl r \<Rightarrow> Some r
      | Inr c1 \<Rightarrow>
          (case receive c1 evs of
             (_, c') \<Rightarrow>
               if connected c' then None
               else Some ([], Returned (), add_callback c' CbStop)))"

section \<open>Sequences of calls\<close>

text \<open>
  The two calls an application makes on a client. Both Python methods return \<^verbatim>\<open>None\<close>
  when they have no message to hand back.
\<close>

datatype api_call = SendMessage message | GetMessage "int option"

definition call :: "client \<Rightarrow> api_call \<Rightarrow> (message option outcome \<times> client) option" where
  "call c a =
     (case a of
        SendMessage m \<Rightarrow>
          (case send_message c m of
             (Raised e, c') \<Rightarrow> Some (Raised e, c')
           | (Returned _, c') \<Rightarrow> Some (Returned None, c'))
      | GetMessage timeout \<Rightarrow> get_message c timeout)"

text \<open>Calls made one after the other, each on the client the previous one left.\<close>

fun calls :: "client \<Rightarrow> api_call list \<Rightarrow> (message option outcome list \<times> client) option" where
  "calls c [] = Some ([], c)"
| "calls c (a # as) =
     (case call c a of
        None \<Rightarrow> None
      | Some (r, c') \<Rightarrow>
          (case calls c' as of
             None \<Rightarrow> None
           | Some (rs, c'') \<Rightarrow> Some (r # rs, c'')))"

section \<open>A concrete run\<close>

text \<open>
  A stream on which nothing has been sent and which has not been closed, the client
  that \<^verbatim>\<open>TCPClient(''server'', 9000)\<close> yields when the connection attempt gives that
  stream, and the same client once \<^verbatim>\<open>disconnect\<close> has sent its notification.
\<close>

definition fresh_stream :: tcp_stream where
  "fresh_stream = \<lparr>sent = [], close_calls = 0, send_fault = None, close_fault = None\<rparr>"

definition example_client :: client where
  "example_client =
     \<lparr>host = ''server'', port = 9000, stream = Some fresh_stream, message_queue = [],
      exception_queue = [], callbacks = [CbConnect, CbReceive], dropped = []\<rparr>"

definition example_disconnecting :: client where
  "example_disconnecting =
     example_client\<lparr>stream := Some (fresh_stream\<lparr>sent := [NotifyClientDisconnect]\<rparr>)\<rparr>"

definition example_closed :: client where
  "example_closed =
     example_client\<lparr>stream := None, message_queue := [Payload ''m1''],
                     dropped := [fresh_stream\<lparr>close_calls := 1\<rparr>]\<rparr>"

text \<open>
  The example client after its receive loop has met a \<^verbatim>\<open>StreamClosedError\<close>, and after
  the first call on it has raised that error.
\<close>

definition example_failed :: client where
  "example_failed =
     example_client\<lparr>stream := None, exception_queue := [StreamClosedError],
                     dropped := [fresh_stream\<lparr>close_calls := 1\<rparr>]\<rparr>"

definition example_failed_seen :: client where
  "example_failed_seen = example_failed\<lparr>exception_queue := []\<rparr>"

section \<open>The receive loop on a run of messages\<close>

lemma receive_messages:
  "stream c = Some s \<Longrightarrow> AckClientDisconnect \<notin> set ms \<Longrightarrow>
   receive c (map Message ms @ evs) = receive (c\<lparr>message_queue := message_queue c @ ms\<rparr>) evs"
proof (induction ms arbitrary: c)
  case Nil
  then show ?case by simp
next
  case (Cons m ms)
  let ?c = "c\<lparr>message_queue := message_queue c @ [m]\<rparr>"
  from Cons.prems have "m \<noteq> AckClientDisconnect" by auto
  with Cons.prems have "receive c (map Message (m # ms) @ evs) = receive ?c (map Message ms @ evs)"
    by simp
  also have "\<dots> = receive (?c\<lparr>message_queue := message_queue ?c @ ms\<rparr>) evs"
    using Cons.prems by (intro Cons.IH) simp_all
  finally show ?case by simp
qed

lemma receive_messages_only:
  "stream c = Some s \<Longrightarrow> AckClientDisconnect \<notin> set ms \<Longrightarrow>
   receive c (map Message ms) = (Awaiting, c\<lparr>message_queue := message_queue c @ ms\<rparr>)"
  using receive_messages [of c s ms "[]"] by (simp add: connected_def)

lemma receive_ack:
  "stream c = Some s \<Longrightarrow>
   receive c (Message AckClientDisconnect # rest) =
     (Exited, c\<lparr>stream := None, dropped := dropped c @ [s\<lparr>close_calls := Suc (close_calls s)\<rparr>]\<rparr>)"
  by (simp add: close_and_clear_def stream_close_def)

lemma receive_failure:
  "stream c = Some s \<Longrightarrow>
   receive c (Failure e # rest) =
     (Exited, c\<lparr>exception_queue := exception_queue c @ [e], stream := None,
                 dropped := dropped c @ [s\<lparr>close_calls := Suc (close_calls s)\<rparr>]\<rparr>)"
  by (simp add: close_and_clear_def stream_close_def)

lemma receive_until_ack:
  assumes "stream c = Some s" and "AckClientDisconnect \<notin> set ms"
  shows "receive c (map Message ms @ Message AckClientDisconnect # rest) =
           (Exited, c\<lparr>message_queue := message_queue c @ ms, stream := None,
                       dropped := dropped c @ [s\<lparr>close_calls := Suc (close_calls s)\<rparr>]\<rparr>)"
proof -
  let ?c = "c\<lparr>message_queue := message_queue c @ ms\<rparr>"
  have "receive c (map Message ms @ Message AckClientDisconnect # rest) =
          receive ?c (Message AckClientDisconnect # rest)"
    using assms by (rule receive_messages)
  also have "\<dots> = (Exited, ?c\<lparr>stream := None,
                       dropped := dropped ?c @ [s\<lparr>close_calls := Suc (close_calls s)\<rparr>]\<rparr>)"
    using assms(1) by (intro receive_ack) simp
  finally show ?thesis by simp
qed

lemma receive_until_failure:
  assumes "stream c = Some s" and "AckClientDisconnect \<notin> set ms"
  shows "receive c (map Message ms @ Failure e # rest) =
           (Exited, c\<lparr>message_queue := message_queue c @ ms,
                       exception_queue := exception_queue c @ [e], stream := None,
                       dropped := dropped c @ [s\<lparr>close_calls := Suc (close_calls s)\<rparr>]\<rparr>)"
proof -
  let ?c = "c\<lparr>message_queue := message_queue c @ ms\<rparr>"
  have "receive c (map Message ms @ Failure e # rest) = receive ?c (Failure e # rest)"
    using assms by (rule receive_messages)
  also have "\<dots> = (Exited, ?c\<lparr>exception_queue := exception_queue ?c @ [e], stream := None,
                       dropped := dropped ?c @ [s\<lparr>close_calls := Suc (close_calls s)\<rparr>]\<rparr>)"
    using assms(1) by (intro receive_failure) simp
  finally show ?thesis by simp
qed

text \<open>
  How the loop can end: still awaiting with the stream in place, or exited with the
  stream reference cleared, after an acknowledgement (no error recorded) or after a
  failure (that failure recorded).
\<close>

lemma receive_cases:
  "stream c = Some s \<Longrightarrow> receive c evs = (st, c') \<Longrightarrow>
     (st = Awaiting \<and> stream c' = Some s \<and> exception_queue c' = exception_queue c)
   \<or> (st = Exited \<and> stream c' = None \<and> Message AckClientDisconnect \<in> set evs
        \<and> exception_queue c' = exception_queue c)
   \<or> (st = Exited \<and> stream c' = None
        \<and> (\<exists>e. Failure e \<in> set evs \<and> exception_queue c' = exception_queue c @ [e]))"
proof (induction evs arbitrary: c)
  case Nil
  then show ?case by (auto simp: connected_def)
next
  case (Cons ev evs)
  show ?case
  proof (cases ev)
    case (Failure e)
    with Cons.prems show ?thesis
      by (auto simp: close_and_clear_def stream_close_def)
  next
    case (Message m)
    show ?thesis
    proof (cases "m = AckClientDisconnect")
      case True
      with Message Cons.prems show ?thesis
        by (auto simp: close_and_clear_def stream_close_def)
    next
      case False
      let ?c = "c\<lparr>message_queue := message_queue c @ [m]\<rparr>"
      from False Message Cons.prems have r: "receive ?c evs = (st, c')" by simp
      have "stream ?c = Some s" using Cons.prems by simp
      from Cons.IH [OF this r] show ?thesis by auto
    qed
  qed
qed

text \<open>
  After any events the client is still connected exactly when all of them were
  messages other than the acknowledgement. The loop schedules nothing on the IOLoop.
\<close>

lemma receive_connected_iff:
  "stream c = Some s \<Longrightarrow>
   connected (snd (receive c evs)) =
     (\<exists>ms. evs = map Message ms \<and> AckClientDisconnect \<notin> set ms)"
proof (induction evs arbitrary: c)
  case Nil
  then show ?case by (simp add: connected_def)
next
  case (Cons ev evs)
  show ?case
  proof (cases ev)
    case (Failure e)
    with Cons.prems show ?thesis
      by (auto simp: close_and_clear_def stream_close_def connected_def Cons_eq_map_conv)
  next
    case (Message m)
    show ?thesis
    proof (cases "m = AckClientDisconnect")
      case True
      with Message Cons.prems show ?thesis
        by (auto simp: close_and_clear_def stream_close_def connected_def Cons_eq_map_conv)
    next
      case False
      let ?c = "c\<lparr>message_queue := message_queue c @ [m]\<rparr>"
      have "stream ?c = Some s" using Cons.prems by simp
      from Cons.IH [OF this]
      have "connected (snd (receive ?c evs)) =
          (\<exists>ms. evs = map Message ms \<and> AckClientDisconnect \<notin> set ms)" .
      moreover have "receive c (ev # evs) = receive ?c evs"
        using False Message Cons.prems by simp
      moreover have "(\<exists>ms. ev # evs = map Message ms \<and> AckClientDisconnect \<notin> set ms) =
          (\<exists>ms. evs = map Message ms \<and> AckClientDisconnect \<notin> set ms)"
        using False Message by (auto simp: Cons_eq_map_conv)
      ultimately show ?thesis by simp
    qed
  qed
qed

lemma receive_callbacks: "callbacks (snd (receive c evs)) = callbacks c"
proof (induction evs arbitrary: c)
  case Nil
  then show ?case by simp
next
  case (Cons ev evs)
  show ?case
  proof (cases "stream c")
    case None
    then show ?thesis by simp
  next
    case (Some s)
    show ?thesis
    proof (cases ev)
      case (Failure e)
      with Some show ?thesis by (simp add: close_and_clear_def stream_close_def)
    next
      case (Message m)
      with Some Cons.IH [of "c\<lparr>message_queue := message_queue c @ [m]\<rparr>"]
      show ?thesis by (simp add: close_and_clear_def stream_close_def)
    qed
  qed
qed

section \<open>Calls on a client\<close>




text \<open>
  A \<^verbatim>\<open>queue.Empty\<close> found on the exception queue is taken off and not raised.
\<close>

lemma check_for_errors_queue_empty:
  "exception_queue c = QueueEmpty # es \<Longrightarrow>
   check_for_errors c = (Returned (), c\<lparr>exception_queue := es\<rparr>)"
  by (simp add: check_for_errors_def)

section \<open>The polling loop of connect\<close>

lemma wait_connected_connected:
  "connected c \<Longrightarrow> wait_connected c = Some (Returned (), c)"
  by (simp add: wait_connected.simps)

lemma wait_connected_idle:
  "\<not> connected c \<Longrightarrow> exception_queue c = [] \<Longrightarrow> wait_connected c = None"
  by (simp add: wait_connected.simps)

lemma wait_connected_error:
  "\<not> connected c \<Longrightarrow> exception_queue c = e # es \<Longrightarrow> e \<noteq> QueueEmpty \<Longrightarrow>
   wait_connected c = Some (Raised e, c\<lparr>exception_queue := es\<rparr>)"
  by (subst wait_connected.simps) (simp add: check_for_errors_def)

lemma wait_connected_queue_empty:
  "\<not> connected c \<Longrightarrow> exception_queue c = QueueEmpty # es \<Longrightarrow>
   wait_connected c = wait_connected (c\<lparr>exception_queue := es\<rparr>)"
  by (subst wait_connected.simps) (simp add: check_for_errors_def)

lemma wait_connected_returned:
  "wait_connected c = Some (Returned u, c') \<Longrightarrow> connected c'"
proof (induction c rule: wait_connected.induct)
  case (1 c)
  show ?case
  proof (cases "connected c")
    case True
    with "1.prems" show ?thesis by (simp add: wait_connected.simps)
  next
    case False
    show ?thesis
    proof (cases "exception_queue c")
      case Nil
      with False "1.prems" show ?thesis by (simp add: wait_connected.simps)
    next
      case (Cons e es)
      show ?thesis
      proof (cases "e = QueueEmpty")
        case True
        with False Cons have chk: "check_for_errors c = (Returned (), c\<lparr>exception_queue := es\<rparr>)"
          by (simp add: check_for_errors_def)
        with False Cons "1.prems"
        have "wait_connected (c\<lparr>exception_queue := es\<rparr>) = Some (Returned u, c')"
          by (subst (asm) wait_connected.simps) simp
        with "1.IH" [OF False _ chk [symmetric] refl] Cons show ?thesis by simp
      next
        case ne: False
        with False Cons "1.prems" show ?thesis
          by (subst (asm) wait_connected.simps) (simp add: check_for_errors_def)
      qed
    qed
  qed
qed

lemma connect_not_stopped_established:
  "stream c = None \<Longrightarrow> exception_queue c = [] \<Longrightarrow> \<not> ioloop_stopped c \<Longrightarrow>
   connect c (ConnEstablished s) =
     Some (Returned (), c\<lparr>stream := Some s, callbacks := callbacks c @ [CbConnect, CbReceive]\<rparr>)"
proof -
  assume a: "stream c = None" "exception_queue c = []" "\<not> ioloop_stopped c"
  let ?c1 = "add_callback c CbConnect"
  let ?c3 = "?c1\<lparr>stream := Some s\<rparr>"
  have "connect_coro ?c1 (ConnEstablished s) = Some ?c3"
    using a by (simp add: connect_coro_def add_callback_def)
  moreover have "wait_connected ?c3 = Some (Returned (), ?c3)"
    by (rule wait_connected_connected) (simp add: connected_def)
  ultimately show ?thesis
    using a by (simp add: connect_def connected_def check_for_errors_def add_callback_def)
qed

lemma connect_not_stopped_raised:
  "stream c = None \<Longrightarrow> exception_queue c = [] \<Longrightarrow> \<not> ioloop_stopped c \<Longrightarrow>
   e \<noteq> QueueEmpty \<Longrightarrow>
   connect c (ConnRaised e) = Some (Raised e, add_callback c CbConnect)"
proof -
  assume a: "stream c = None" "exception_queue c = []" "\<not> ioloop_stopped c" "e \<noteq> QueueEmpty"
  let ?c1 = "add_callback c CbConnect"
  let ?c3 = "?c1\<lparr>exception_queue := [e]\<rparr>"
  have "connect_coro ?c1 (ConnRaised e) = Some ?c3"
    using a by (simp add: connect_coro_def add_callback_def)
  moreover have "wait_connected ?c3 = Some (Raised e, ?c3\<lparr>exception_queue := []\<rparr>)"
    using a by (intro wait_connected_error) (simp_all add: connected_def add_callback_def)
  ultimately show ?thesis
    using a by (simp add: connect_def connected_def check_for_errors_def add_callback_def)
qed

lemma connect_pending:
  "stream c = None \<Longrightarrow> exception_queue c = [] \<Longrightarrow> connect c ConnPending = None"
proof -
  assume a: "stream c = None" "exception_queue c = []"
  let ?c1 = "add_callback c CbConnect"
  have "wait_connected ?c1 = None"
    using a by (intro wait_connected_idle) (simp_all add: connected_def add_callback_def)
  then show ?thesis
    using a
    by (simp add: connect_def Let_def connected_def check_for_errors_def add_callback_def
        connect_coro_def)
qed

lemma connect_stopped:
  "stream c = None \<Longrightarrow> ioloop_stopped c \<Longrightarrow> connect c oc \<noteq> Some (Returned (), c')"
proof -
  assume a: "stream c = None" "ioloop_stopped c"
  let ?c1 = "add_callback c CbConnect"
  have n1: "\<not> connected ?c1" using a by (simp add: connected_def add_callback_def)
  obtain r c2 where chk: "check_for_errors ?c1 = (r, c2)" by (cases "check_for_errors ?c1")
  have n2: "\<not> connected c2"
    using chk n1
    by (auto simp: check_for_errors_def connected_def split: list.splits if_splits)
  show ?thesis
  proof (cases r)
    case (Raised e)
    with chk n1 show ?thesis by (simp add: connect_def)
  next
    case (Returned u)
    have "wait_connected c2 \<noteq> Some (Returned v, c4)" for v c4
    proof
      assume w: "wait_connected c2 = Some (Returned v, c4)"
      then have "connected c4" by (rule wait_connected_returned)
      have "\<not> connected c4"
        using w n2
      proof (induction c2 rule: wait_connected.induct)
        case (1 c)
        show ?case
        proof (cases "exception_queue c")
          case Nil
          with "1.prems" show ?thesis by (simp add: wait_connected.simps)
        next
          case (Cons e es)
          show ?thesis
          proof (cases "e = QueueEmpty")
            case True
            with Cons have k: "check_for_errors c = (Returned (), c\<lparr>exception_queue := es\<rparr>)"
              by (simp add: check_for_errors_def)
            with Cons "1.prems"
            have "wait_connected (c\<lparr>exception_queue := es\<rparr>) = Some (Returned v, c4)"
              by (subst (asm) wait_connected.simps) simp
            moreover have "\<not> connected (c\<lparr>exception_queue := es\<rparr>)"
              using "1.prems" by (simp add: connected_def)
            ultimately show ?thesis
              using "1.IH" [OF "1.prems"(2) _ k [symmetric] refl] Cons by simp
          next
            case False
            with Cons "1.prems" show ?thesis
              by (subst (asm) wait_connected.simps) (simp add: check_for_errors_def)
          qed
        qed
      qed
      with \<open>connected c4\<close> show False by simp
    qed
    with Returned chk n1 a show ?thesis
      by (auto simp: connect_def split: option.splits outcome.splits)
  qed
qed

lemma get_message_front:
  "stream c = Some s \<Longrightarrow> exception_queue c = [] \<Longrightarrow> message_queue c = m # q \<Longrightarrow>
   \<forall>d. t = Some d \<longrightarrow> 0 \<le> d \<Longrightarrow>
   get_message c t = Some (Returned (Some m), c\<lparr>message_queue := q\<rparr>)"
  by (cases t)
    (simp_all add: get_message_def check_for_errors_def connected_def queue_get_def)

lemma get_messages_in_order:
  "stream c = Some s \<Longrightarrow> exception_queue c = [] \<Longrightarrow> length ts \<le> length (message_queue c) \<Longrightarrow>
   \<forall>t \<in> set ts. \<forall>d. t = Some d \<longrightarrow> 0 \<le> d \<Longrightarrow>
   calls c (map GetMessage ts) =
     Some (map (\<lambda>m. Returned (Some m)) (take (length ts) (message_queue c)),
           c\<lparr>message_queue := drop (length ts) (message_queue c)\<rparr>)"
proof (induction ts arbitrary: c)
  case Nil
  then show ?case by simp
next
  case (Cons t ts)
  then obtain m q where q: "message_queue c = m # q" by (cases "message_queue c") auto
  let ?c = "c\<lparr>message_queue := q\<rparr>"
  have "\<forall>d. t = Some d \<longrightarrow> 0 \<le> d" using Cons.prems by simp
  with Cons.prems(1,2) q have step: "call c (GetMessage t) = Some (Returned (Some m), ?c)"
    by (simp add: call_def get_message_front)
  have "calls ?c (map GetMessage ts) =
          Some (map (\<lambda>m. Returned (Some m)) (take (length ts) (message_queue ?c)),
                ?c\<lparr>message_queue := drop (length ts) (message_queue ?c)\<rparr>)"
    using Cons.prems q by (intro Cons.IH) simp_all
  with step q show ?case by simp
qed

section \<open>The constructor\<close>

lemma new_client_idle:
  "stream (new_client h p) = None" "exception_queue (new_client h p) = []"
  "\<not> ioloop_stopped (new_client h p)"
  by (simp_all add: new_client_def ioloop_stopped_def)

lemma init_established:
  "init h p (ConnEstablished s) =
     Some (Returned (),
           (new_client h p)\<lparr>stream := Some s, callbacks := [CbConnect, CbReceive]\<rparr>)"
  unfolding init_def
  by (subst connect_not_stopped_established) (simp_all add: new_client_idle, simp add: new_client_def)

lemma init_raised:
  "e \<noteq> QueueEmpty \<Longrightarrow>
   init h p (ConnRaised e) = Some (Raised e, add_callback (new_client h p) CbConnect)"
  unfolding init_def by (rule connect_not_stopped_raised) (simp_all add: new_client_idle)

lemma init_pending: "init h p ConnPending = None"
  unfolding init_def by (rule connect_pending) (simp_all add: new_client_idle)

lemma connect_returned: "connect c oc = Some (Returned (), c') \<Longrightarrow> connected c'"
proof -
  assume a: "connect c oc = Some (Returned (), c')"
  let ?c1 = "add_callback c CbConnect"
  show ?thesis
  proof (cases "connected ?c1")
    case True
    with a show ?thesis by (auto simp: connect_def Let_def connected_def add_callback_def)
  next
    case False
    obtain r c2 where chk: "check_for_errors ?c1 = (r, c2)" by (cases "check_for_errors ?c1")
    let ?c = "case (if ioloop_stopped c then None else connect_coro c2 oc) of
                None \<Rightarrow> c2 | Some c3 \<Rightarrow> c3"
    from a False chk obtain u c4 where w: "wait_connected ?c = Some (Returned u, c4)"
      and c': "c' = add_callback c4 CbReceive"
      by (cases r; cases "wait_connected ?c")
        (auto simp: connect_def Let_def split: outcome.splits)
    from w have "connected c4" by (rule wait_connected_returned)
    with c' show ?thesis by (simp add: connected_def add_callback_def)
  qed
qed

lemma init_returned: "init h p oc = Some (Returned (), c) \<Longrightarrow> connected c"
  unfolding init_def by (rule connect_returned)

section \<open>Claims\<close>




text \<open>
  C2. On a connected client with no error pending, the receive loop appends the
  messages that arrive (none of them the acknowledgement) to the message queue in
  arrival order, after what the queue already holds, and stays awaiting; the next
  \<open>n\<close> calls of \<^verbatim>\<open>get_message\<close> (without timeout, or with a timeout that is not
  negative), \<open>n\<close> at most the length of the queue, return the first \<open>n\<close> messages of
  the queue in that order, each once, and leave the others queued; messages that
  arrive after these calls are appended behind the ones left.
\<close>

theorem messages_delivered_in_arrival_order:
  fixes c :: client and ms :: "message list"
  defines "q \<equiv> message_queue c @ ms"
  assumes "stream c = Some s" and "exception_queue c = []"
    and "AckClientDisconnect \<notin> set ms"
    and "length ts \<le> length q"
    and "\<forall>t \<in> set ts. \<forall>d. t = Some d \<longrightarrow> 0 \<le> d"
  shows "receive c (map Message ms) = (Awaiting, c\<lparr>message_queue := q\<rparr>)
       \<and> calls (c\<lparr>message_queue := q\<rparr>) (map GetMessage ts) =
           Some (map (\<lambda>m. Returned (Some m)) (take (length ts) q),
                 c\<lparr>message_queue := drop (length ts) q\<rparr>)
       \<and> (AckClientDisconnect \<notin> set ms' \<longrightarrow>
            receive (c\<lparr>message_queue := drop (length ts) q\<rparr>) (map Message ms') =
              (Awaiting, c\<lparr>message_queue := drop (length ts) q @ ms'\<rparr>))"
proof -
  let ?c = "c\<lparr>message_queue := q\<rparr>"
  have later: "AckClientDisconnect \<notin> set ms' \<longrightarrow>
      receive (c\<lparr>message_queue := drop (length ts) q\<rparr>) (map Message ms') =
        (Awaiting, c\<lparr>message_queue := drop (length ts) q @ ms'\<rparr>)"
    using assms(2) receive_messages_only [of "c\<lparr>message_queue := drop (length ts) q\<rparr>" s ms']
    by simp
  have "receive c (map Message ms) = (Awaiting, ?c)"
    unfolding q_def using assms(2,4) by (rule receive_messages_only)
  moreover have "calls ?c (map GetMessage ts) =
      Some (map (\<lambda>m. Returned (Some m)) (take (length ts) (message_queue ?c)),
            ?c\<lparr>message_queue := drop (length ts) (message_queue ?c)\<rparr>)"
    using assms(2,3,5,6) by (intro get_messages_in_order [where s = s]) simp_all
  ultimately show ?thesis using later by simp
qed

theorem messages_delivered_in_arrival_order_witness:
  "stream example_client = Some fresh_stream \<and> exception_queue example_client = []
   \<and> AckClientDisconnect \<notin> set [Payload ''m1'', Payload ''m2'', Payload ''m3'']
   \<and> receive example_client
        [Message (Payload ''m1''), Message (Payload ''m2''), Message (Payload ''m3'')] =
       (Awaiting,
        example_client\<lparr>message_queue := [Payload ''m1'', Payload ''m2'', Payload ''m3'']\<rparr>)
   \<and> calls (example_client\<lparr>message_queue := [Payload ''m1'', Payload ''m2'', Payload ''m3'']\<rparr>)
        [GetMessage None, GetMessage (Some 0), GetMessage (Some 5)] =
       Some ([Returned (Some (Payload ''m1'')), Returned (Some (Payload ''m2'')),
              Returned (Some (Payload ''m3''))],
             example_client\<lparr>message_queue := []\<rparr>)"
proof -
  let ?ms = "[Payload ''m1'', Payload ''m2'', Payload ''m3'']"
  let ?ts = "[None, Some 0, Some 5] :: int option list"
  have a: "stream example_client = Some fresh_stream"
    and b: "exception_queue example_client = []"
    by (simp_all add: example_client_def)
  have d: "AckClientDisconnect \<notin> set ?ms" by simp
  have l: "length ?ts \<le> length (message_queue example_client @ ?ms)" by simp
  have t: "\<forall>t \<in> set ?ts. \<forall>d. t = Some d \<longrightarrow> 0 \<le> d" by simp
  from messages_delivered_in_arrival_order [OF a b d l t, of "[]"] a b d
  show ?thesis by (simp add: example_client_def)
qed

text \<open>
  C3 (as amended). \<^verbatim>\<open>send_message\<close> first takes a pending error off the exception
  queue and raises it (an error other than a \<^verbatim>\<open>queue.Empty\<close>, which is left aside here);
  with no error pending and no stream, as on a client that has not been connected or
  whose connection attempt failed, it raises \<^verbatim>\<open>NotConnected\<close> and changes nothing;
  with no error pending and a stream it hands the message to the stream, whose
  failure it lets through and whose success leaves the message written. The stream
  is there during the disconnect handshake too: after \<^verbatim>\<open>disconnect\<close> has sent its
  notification, \<^verbatim>\<open>send_message\<close> writes the message behind it.
\<close>

theorem send_message_checks_errors_then_stream:
  "(exception_queue c = e # es \<and> e \<noteq> QueueEmpty \<longrightarrow>
      send_message c m = (Raised e, c\<lparr>exception_queue := es\<rparr>))
   \<and> (exception_queue c = [] \<and> \<not> connected c \<longrightarrow>
      send_message c m = (Raised NotConnected, c))
   \<and> (exception_queue c = [] \<and> stream c = Some s \<longrightarrow>
      send_message c m =
        (case stream_send_message s m of
           Inl x \<Rightarrow> (Raised x, c)
         | Inr s' \<Rightarrow> (Returned (), c\<lparr>stream := Some s'\<rparr>)))
   \<and> (exception_queue c = [] \<and> stream c = Some s \<and> send_fault s = None \<longrightarrow>
      send_message c m = (Returned (), c\<lparr>stream := Some (s\<lparr>sent := sent s @ [m]\<rparr>)\<rparr>)
      \<and> disconnect_notify c =
          Inr (c\<lparr>stream := Some (s\<lparr>sent := sent s @ [NotifyClientDisconnect]\<rparr>)\<rparr>)
      \<and> send_message
            (c\<lparr>stream := Some (s\<lparr>sent := sent s @ [NotifyClientDisconnect]\<rparr>)\<rparr>) m =
          (Returned (),
           c\<lparr>stream := Some (s\<lparr>sent := sent s @ [NotifyClientDisconnect, m]\<rparr>)\<rparr>))
   \<and> send_message (new_client h p) m = (Raised NotConnected, new_client h p)
   \<and> (x \<noteq> QueueEmpty \<longrightarrow>
        init h p (ConnRaised x) = Some (Raised x, add_callback (new_client h p) CbConnect))
   \<and> send_message (add_callback (new_client h p) CbConnect) m =
       (Raised NotConnected, add_callback (new_client h p) CbConnect)"
proof -
  note unfold = send_message_def check_for_errors_def connected_def stream_send_message_def
  have p1: "exception_queue c = e # es \<and> e \<noteq> QueueEmpty \<longrightarrow>
      send_message c m = (Raised e, c\<lparr>exception_queue := es\<rparr>)"
    by (simp add: unfold)
  have p2: "exception_queue c = [] \<and> \<not> connected c \<longrightarrow>
      send_message c m = (Raised NotConnected, c)"
    by (simp add: unfold)
  have p3: "exception_queue c = [] \<and> stream c = Some s \<longrightarrow>
      send_message c m =
        (case stream_send_message s m of
           Inl x \<Rightarrow> (Raised x, c)
         | Inr s' \<Rightarrow> (Returned (), c\<lparr>stream := Some s'\<rparr>))"
    by (simp add: unfold)
  have p4: "exception_queue c = [] \<and> stream c = Some s \<and> send_fault s = None \<longrightarrow>
      send_message c m = (Returned (), c\<lparr>stream := Some (s\<lparr>sent := sent s @ [m]\<rparr>)\<rparr>)
      \<and> disconnect_notify c =
          Inr (c\<lparr>stream := Some (s\<lparr>sent := sent s @ [NotifyClientDisconnect]\<rparr>)\<rparr>)
      \<and> send_message
            (c\<lparr>stream := Some (s\<lparr>sent := sent s @ [NotifyClientDisconnect]\<rparr>)\<rparr>) m =
          (Returned (),
           c\<lparr>stream := Some (s\<lparr>sent := sent s @ [NotifyClientDisconnect, m]\<rparr>)\<rparr>)"
    by (simp add: unfold disconnect_notify_def)
  have p5: "send_message (new_client h p) m = (Raised NotConnected, new_client h p)"
    by (simp add: unfold new_client_def)
  have p6: "x \<noteq> QueueEmpty \<longrightarrow>
      init h p (ConnRaised x) = Some (Raised x, add_callback (new_client h p) CbConnect)"
    by (simp add: init_raised)
  have p7: "send_message (add_callback (new_client h p) CbConnect) m =
      (Raised NotConnected, add_callback (new_client h p) CbConnect)"
    by (simp add: unfold new_client_def add_callback_def)
  show ?thesis by (intro conjI p1 p2 p3 p4 p5 p6 p7)
qed

theorem send_message_checks_errors_then_stream_witness:
  "send_message (example_client\<lparr>exception_queue := [StreamClosedError]\<rparr>) (Payload ''x'') =
     (Raised StreamClosedError, example_client)
   \<and> send_message (example_client\<lparr>stream := None\<rparr>) (Payload ''x'') =
     (Raised NotConnected, example_client\<lparr>stream := None\<rparr>)
   \<and> send_message example_client (Payload ''x'') =
     (Returned (), example_client\<lparr>stream := Some (fresh_stream\<lparr>sent := [Payload ''x'']\<rparr>)\<rparr>)
   \<and> disconnect_notify example_client = Inr example_disconnecting
   \<and> send_message example_disconnecting (Payload ''x'') =
     (Returned (),
      example_client\<lparr>stream :=
        Some (fresh_stream\<lparr>sent := [NotifyClientDisconnect, Payload ''x'']\<rparr>)\<rparr>)
   \<and> init ''server'' 9000 (ConnRaised StreamClosedError) =
     Some (Raised StreamClosedError, add_callback (new_client ''server'' 9000) CbConnect)"
proof -
  let ?c1 = "example_client\<lparr>exception_queue := [StreamClosedError]\<rparr>"
  let ?c2 = "example_client\<lparr>stream := None\<rparr>"
  let ?m = "Payload ''x''"
  have a: "exception_queue ?c1 = StreamClosedError # [] \<and> StreamClosedError \<noteq> QueueEmpty"
    by simp
  have b: "exception_queue ?c2 = [] \<and> \<not> connected ?c2"
    by (simp add: example_client_def connected_def)
  have d: "exception_queue example_client = [] \<and> stream example_client = Some fresh_stream
           \<and> send_fault fresh_stream = None"
    by (simp add: example_client_def fresh_stream_def)
  have n: "StreamClosedError \<noteq> QueueEmpty" by simp
  have r1: "send_message ?c1 ?m = (Raised StreamClosedError, ?c1\<lparr>exception_queue := []\<rparr>)"
    by (rule send_message_checks_errors_then_stream [THEN conjunct1, THEN mp]) (rule a)
  have r2: "send_message ?c2 ?m = (Raised NotConnected, ?c2)"
    by (rule send_message_checks_errors_then_stream
          [THEN conjunct2, THEN conjunct1, THEN mp]) (rule b)
  note r3 = send_message_checks_errors_then_stream
    [of example_client _ _ ?m fresh_stream,
      THEN conjunct2, THEN conjunct2, THEN conjunct2, THEN conjunct1, THEN mp, OF d]
  have r4: "init ''server'' 9000 (ConnRaised StreamClosedError) =
      Some (Raised StreamClosedError, add_callback (new_client ''server'' 9000) CbConnect)"
    by (rule send_message_checks_errors_then_stream
          [THEN conjunct2, THEN conjunct2, THEN conjunct2, THEN conjunct2, THEN conjunct2,
            THEN conjunct1, THEN mp]) (rule n)
  show ?thesis
    using r1 r2 r3 r4
    by (simp add: example_client_def example_disconnecting_def fresh_stream_def)
qed

text \<open>
  C3 as stated fails: \<^verbatim>\<open>disconnect\<close> on the connected example client has sent its
  notification and is polling, so the connection is no longer in state Connected; no
  error is pending, and \<^verbatim>\<open>send_message\<close> does not raise \<^verbatim>\<open>NotConnected\<close> but writes the
  message to the stream, behind the notification. Nor is every exception found on the
  exception queue raised again: with a \<^verbatim>\<open>queue.Empty\<close> there, \<^verbatim>\<open>send_message\<close> takes it off
  and writes the message.
\<close>

theorem send_while_disconnecting_counterexample:
  "disconnect_notify example_client = Inr example_disconnecting
   \<and> exception_queue example_disconnecting = []
   \<and> disconnect example_client [] = None
   \<and> send_message example_disconnecting (Payload ''x'') =
       (Returned (),
        example_client\<lparr>stream :=
          Some (fresh_stream\<lparr>sent := [NotifyClientDisconnect, Payload ''x'']\<rparr>)\<rparr>)
   \<and> send_message (example_client\<lparr>exception_queue := [QueueEmpty]\<rparr>) (Payload ''x'') =
       (Returned (),
        example_client\<lparr>stream := Some (fresh_stream\<lparr>sent := [Payload ''x'']\<rparr>)\<rparr>)"
  by (simp add: disconnect_def disconnect_notify_def example_client_def
      example_disconnecting_def stream_send_message_def fresh_stream_def connected_def
      send_message_def check_for_errors_def)



text \<open>
  C5. On \<^verbatim>\<open>AckClientDisconnect\<close> the receive loop of a connected client makes one
  \<^verbatim>\<open>close()\<close> call on the stream, clears the stream reference and exits, with the events
  after the acknowledgement left unread and no error recorded. A loop that has exited
  without recording an error has received the acknowledgement. A \<^verbatim>\<open>disconnect\<close> that is
  acknowledged returns with the client disconnected and with that one close call made
  on the stream, on which the notification is the last message sent.
\<close>

theorem ack_closes_stream_once_and_exits:
  "(stream c = Some s \<and> AckClientDisconnect \<notin> set ms \<longrightarrow>
      receive c (map Message ms @ Message AckClientDisconnect # rest) =
        (Exited, c\<lparr>message_queue := message_queue c @ ms, stream := None,
                    dropped := dropped c @ [s\<lparr>close_calls := Suc (close_calls s)\<rparr>]\<rparr>))
   \<and> (stream c = Some s \<and> fst (receive c evs) = Exited
        \<and> exception_queue (snd (receive c evs)) = exception_queue c \<longrightarrow>
      Message AckClientDisconnect \<in> set evs)
   \<and> (stream c = Some s \<and> send_fault s = None \<and> AckClientDisconnect \<notin> set ms \<longrightarrow>
      disconnect c (map Message ms @ Message AckClientDisconnect # rest) =
        Some ([], Returned (),
              c\<lparr>message_queue := message_queue c @ ms, stream := None,
                callbacks := callbacks c @ [CbStop],
                dropped := dropped c @
                  [s\<lparr>sent := sent s @ [NotifyClientDisconnect],
                     close_calls := Suc (close_calls s)\<rparr>]\<rparr>))"
proof (intro conjI impI)
  assume "stream c = Some s \<and> AckClientDisconnect \<notin> set ms"
  then show "receive c (map Message ms @ Message AckClientDisconnect # rest) =
        (Exited, c\<lparr>message_queue := message_queue c @ ms, stream := None,
                    dropped := dropped c @ [s\<lparr>close_calls := Suc (close_calls s)\<rparr>]\<rparr>)"
    by (simp add: receive_until_ack)
next
  assume a: "stream c = Some s \<and> fst (receive c evs) = Exited
        \<and> exception_queue (snd (receive c evs)) = exception_queue c"
  obtain st c' where r: "receive c evs = (st, c')" by (cases "receive c evs")
  from a have "stream c = Some s" by simp
  from receive_cases [OF this r] a r
  show "Message AckClientDisconnect \<in> set evs" by auto
next
  assume a: "stream c = Some s \<and> send_fault s = None \<and> AckClientDisconnect \<notin> set ms"
  let ?s = "s\<lparr>sent := sent s @ [NotifyClientDisconnect]\<rparr>"
  let ?c = "c\<lparr>stream := Some ?s\<rparr>"
  from a have n: "disconnect_notify c = Inr ?c"
    by (simp add: disconnect_notify_def stream_send_message_def)
  have "receive ?c (map Message ms @ Message AckClientDisconnect # rest) =
      (Exited, ?c\<lparr>message_queue := message_queue ?c @ ms, stream := None,
                  dropped := dropped ?c @ [?s\<lparr>close_calls := Suc (close_calls ?s)\<rparr>]\<rparr>)"
    using a by (intro receive_until_ack) simp_all
  with n show "disconnect c (map Message ms @ Message AckClientDisconnect # rest) =
        Some ([], Returned (),
              c\<lparr>message_queue := message_queue c @ ms, stream := None,
                callbacks := callbacks c @ [CbStop],
                dropped := dropped c @
                  [s\<lparr>sent := sent s @ [NotifyClientDisconnect],
                     close_calls := Suc (close_calls s)\<rparr>]\<rparr>)"
    by (simp add: disconnect_def connected_def add_callback_def)
qed

theorem ack_closes_stream_once_and_exits_witness:
  "receive example_client [Message (Payload ''m1''), Message AckClientDisconnect] =
     (Exited, example_client\<lparr>message_queue := [Payload ''m1''], stream := None,
                dropped := [fresh_stream\<lparr>close_calls := 1\<rparr>]\<rparr>)
   \<and> Message AckClientDisconnect \<in> set [Message AckClientDisconnect, Failure StreamClosedError]
   \<and> disconnect example_client [Message (Payload ''m1''), Message AckClientDisconnect] =
     Some ([], Returned (),
           example_client\<lparr>message_queue := [Payload ''m1''], stream := None,
             callbacks := [CbConnect, CbReceive, CbStop],
             dropped := [fresh_stream\<lparr>sent := [NotifyClientDisconnect], close_calls := 1\<rparr>]\<rparr>)"
proof -
  let ?ms = "[Payload ''m1'']"
  have a: "stream example_client = Some fresh_stream \<and> AckClientDisconnect \<notin> set ?ms"
    by (simp add: example_client_def)
  have b: "stream example_client = Some fresh_stream
      \<and> fst (receive example_client [Message AckClientDisconnect, Failure StreamClosedError]) = Exited
      \<and> exception_queue (snd (receive example_client
            [Message AckClientDisconnect, Failure StreamClosedError])) =
          exception_queue example_client"
    by (simp add: example_client_def close_and_clear_def stream_close_def)
  have d: "stream example_client = Some fresh_stream \<and> send_fault fresh_stream = None
      \<and> AckClientDisconnect \<notin> set ?ms"
    by (simp add: example_client_def fresh_stream_def)
  have r1: "receive example_client (map Message ?ms @ Message AckClientDisconnect # []) =
      (Exited, example_client\<lparr>message_queue := message_queue example_client @ ?ms,
         stream := None,
         dropped := dropped example_client @
           [fresh_stream\<lparr>close_calls := Suc (close_calls fresh_stream)\<rparr>]\<rparr>)"
    by (rule ack_closes_stream_once_and_exits [THEN conjunct1, THEN mp]) (rule a)
  have r2: "Message AckClientDisconnect
      \<in> set [Message AckClientDisconnect, Failure StreamClosedError]"
    by (rule ack_closes_stream_once_and_exits [THEN conjunct2, THEN conjunct1, THEN mp])
      (rule b)
  have r3: "disconnect example_client (map Message ?ms @ Message AckClientDisconnect # []) =
      Some ([], Returned (),
            example_client\<lparr>message_queue := message_queue example_client @ ?ms,
              stream := None,
              callbacks := callbacks example_client @ [CbStop],
              dropped := dropped example_client @
                [fresh_stream\<lparr>sent := sent fresh_stream @ [NotifyClientDisconnect],
                   close_calls := Suc (close_calls fresh_stream)\<rparr>]\<rparr>)"
    by (rule ack_closes_stream_once_and_exits [THEN conjunct2, THEN conjunct2, THEN mp])
      (rule d)
  show ?thesis
    using r1 r2 r3 by (simp add: example_client_def fresh_stream_def)
qed

text \<open>
  C6. On a failure the receive loop of a connected client puts the exception on the
  exception queue, makes one \<^verbatim>\<open>close()\<close> call on the stream, clears the stream reference
  and exits. Whenever the receive loop of a connected client has changed the exception
  queue, the client is left disconnected; so is a new client whose connection attempt
  has failed.
\<close>

theorem failure_recorded_and_connection_torn_down:
  "(stream c = Some s \<and> AckClientDisconnect \<notin> set ms \<longrightarrow>
      receive c (map Message ms @ Failure e # rest) =
        (Exited, c\<lparr>message_queue := message_queue c @ ms,
                    exception_queue := exception_queue c @ [e], stream := None,
                    dropped := dropped c @ [s\<lparr>close_calls := Suc (close_calls s)\<rparr>]\<rparr>))
   \<and> (stream c = Some s
        \<and> exception_queue (snd (receive c evs)) \<noteq> exception_queue c \<longrightarrow>
      fst (receive c evs) = Exited \<and> \<not> connected (snd (receive c evs)))
   \<and> connect_coro (new_client h p) (ConnRaised e) =
       Some ((new_client h p)\<lparr>exception_queue := [e]\<rparr>)
   \<and> \<not> connected ((new_client h p)\<lparr>exception_queue := [e]\<rparr>)"
proof (intro conjI impI)
  assume "stream c = Some s \<and> AckClientDisconnect \<notin> set ms"
  then show "receive c (map Message ms @ Failure e # rest) =
        (Exited, c\<lparr>message_queue := message_queue c @ ms,
                    exception_queue := exception_queue c @ [e], stream := None,
                    dropped := dropped c @ [s\<lparr>close_calls := Suc (close_calls s)\<rparr>]\<rparr>)"
    by (simp add: receive_until_failure)
next
  assume a: "stream c = Some s \<and> exception_queue (snd (receive c evs)) \<noteq> exception_queue c"
  obtain st c' where r: "receive c evs = (st, c')" by (cases "receive c evs")
  from a have "stream c = Some s" by simp
  from receive_cases [OF this r] a r
  show "fst (receive c evs) = Exited" by auto
next
  assume a: "stream c = Some s \<and> exception_queue (snd (receive c evs)) \<noteq> exception_queue c"
  obtain st c' where r: "receive c evs = (st, c')" by (cases "receive c evs")
  from a have "stream c = Some s" by simp
  from receive_cases [OF this r] a r
  show "\<not> connected (snd (receive c evs))" by (auto simp: connected_def)
next
  show "connect_coro (new_client h p) (ConnRaised e) =
       Some ((new_client h p)\<lparr>exception_queue := [e]\<rparr>)"
    by (simp add: connect_coro_def new_client_def)
next
  show "\<not> connected ((new_client h p)\<lparr>exception_queue := [e]\<rparr>)"
    by (simp add: connected_def new_client_def)
qed

theorem failure_recorded_and_connection_torn_down_witness:
  "receive example_client [Message (Payload ''m1''), Failure StreamClosedError] =
     (Exited, example_client\<lparr>message_queue := [Payload ''m1''],
                exception_queue := [StreamClosedError], stream := None,
                dropped := [fresh_stream\<lparr>close_calls := 1\<rparr>]\<rparr>)
   \<and> \<not> connected (snd (receive example_client [Failure StreamClosedError]))"
proof -
  let ?ms = "[Payload ''m1'']"
  have a: "stream example_client = Some fresh_stream \<and> AckClientDisconnect \<notin> set ?ms"
    by (simp add: example_client_def)
  have b: "stream example_client = Some fresh_stream
      \<and> exception_queue (snd (receive example_client [Failure StreamClosedError])) \<noteq>
          exception_queue example_client"
    by (simp add: example_client_def close_and_clear_def stream_close_def)
  have r1: "receive example_client (map Message ?ms @ Failure StreamClosedError # []) =
      (Exited, example_client\<lparr>message_queue := message_queue example_client @ ?ms,
         exception_queue := exception_queue example_client @ [StreamClosedError],
         stream := None,
         dropped := dropped example_client @
           [fresh_stream\<lparr>close_calls := Suc (close_calls fresh_stream)\<rparr>]\<rparr>)"
    by (rule failure_recorded_and_connection_torn_down [THEN conjunct1, THEN mp]) (rule a)
  have r2: "fst (receive example_client [Failure StreamClosedError]) = Exited
      \<and> \<not> connected (snd (receive example_client [Failure StreamClosedError]))"
    by (rule failure_recorded_and_connection_torn_down
          [THEN conjunct2, THEN conjunct1, THEN mp]) (rule b)
  show ?thesis
    using r1 r2 by (simp add: example_client_def fresh_stream_def)
qed

text \<open>
  C7 (as amended). \<^verbatim>\<open>connected\<close> only reads the client, and it is true exactly when
  the stream reference is set. That includes the time of the disconnect handshake:
  once \<^verbatim>\<open>disconnect\<close> has sent its notification, \<^verbatim>\<open>connected\<close> is true, and after the
  receive loop has handled further events it is true exactly when all of them were
  messages other than the acknowledgement: it stays true while the loop handles
  such messages, and it is false once the loop has handled the acknowledgement or a
  failure.
\<close>

theorem connected_until_loop_exit:
  "connected c = (stream c \<noteq> None)
   \<and> (disconnect_notify c = Inr c1 \<longrightarrow>
        connected c1
        \<and> connected (snd (receive c1 evs)) =
            (\<exists>ms. evs = map Message ms \<and> AckClientDisconnect \<notin> set ms)
        \<and> (AckClientDisconnect \<notin> set ms \<longrightarrow>
             connected (snd (receive c1 (map Message ms)))
             \<and> \<not> connected (snd (receive c1
                   (map Message ms @ Message AckClientDisconnect # rest)))
             \<and> \<not> connected (snd (receive c1 (map Message ms @ Failure e # rest)))))"
proof -
  have p1: "connected c = (stream c \<noteq> None)" by (simp add: connected_def)
  have p2: "disconnect_notify c = Inr c1 \<longrightarrow>
        connected c1
        \<and> connected (snd (receive c1 evs)) =
            (\<exists>ms. evs = map Message ms \<and> AckClientDisconnect \<notin> set ms)
        \<and> (AckClientDisconnect \<notin> set ms \<longrightarrow>
             connected (snd (receive c1 (map Message ms)))
             \<and> \<not> connected (snd (receive c1
                   (map Message ms @ Message AckClientDisconnect # rest)))
             \<and> \<not> connected (snd (receive c1 (map Message ms @ Failure e # rest))))"
  proof
    assume "disconnect_notify c = Inr c1"
    then obtain s where s: "stream c1 = Some s"
      by (auto simp: disconnect_notify_def split: option.splits sum.splits)
    have q1: "connected c1" using s by (simp add: connected_def)
    have q2: "connected (snd (receive c1 evs)) =
        (\<exists>ms. evs = map Message ms \<and> AckClientDisconnect \<notin> set ms)"
      using s by (rule receive_connected_iff)
    have q3: "AckClientDisconnect \<notin> set ms \<longrightarrow>
             connected (snd (receive c1 (map Message ms)))
             \<and> \<not> connected (snd (receive c1
                   (map Message ms @ Message AckClientDisconnect # rest)))
             \<and> \<not> connected (snd (receive c1 (map Message ms @ Failure e # rest)))"
      using s
      by (simp add: receive_messages_only receive_until_ack receive_until_failure
          connected_def)
    show "connected c1
        \<and> connected (snd (receive c1 evs)) =
            (\<exists>ms. evs = map Message ms \<and> AckClientDisconnect \<notin> set ms)
        \<and> (AckClientDisconnect \<notin> set ms \<longrightarrow>
             connected (snd (receive c1 (map Message ms)))
             \<and> \<not> connected (snd (receive c1
                   (map Message ms @ Message AckClientDisconnect # rest)))
             \<and> \<not> connected (snd (receive c1 (map Message ms @ Failure e # rest))))"
      by (intro conjI q1 q2 q3)
  qed
  show ?thesis by (intro conjI p1 p2)
qed

theorem connected_until_loop_exit_witness:
  "disconnect_notify example_client = Inr example_disconnecting
   \<and> AckClientDisconnect \<notin> set [Payload ''m1'']
   \<and> connected example_disconnecting
   \<and> connected (snd (receive example_disconnecting [Message (Payload ''m1'')]))
   \<and> \<not> connected (snd (receive example_disconnecting
         [Message (Payload ''m1''), Message AckClientDisconnect]))
   \<and> \<not> connected (snd (receive example_disconnecting
         [Message (Payload ''m1''), Failure StreamClosedError]))"
proof -
  let ?ms = "[Payload ''m1'']"
  have n: "disconnect_notify example_client = Inr example_disconnecting"
    by (simp add: disconnect_notify_def example_client_def example_disconnecting_def
        stream_send_message_def fresh_stream_def)
  have a: "AckClientDisconnect \<notin> set ?ms" by simp
  note t = connected_until_loop_exit
    [of example_client example_disconnecting _ ?ms "[]" StreamClosedError,
      THEN conjunct2, THEN mp, OF n]
  have r1: "connected example_disconnecting"
    by (rule t [THEN conjunct1])
  have r2: "connected (snd (receive example_disconnecting (map Message ?ms)))
      \<and> \<not> connected (snd (receive example_disconnecting
            (map Message ?ms @ Message AckClientDisconnect # [])))
      \<and> \<not> connected (snd (receive example_disconnecting
            (map Message ?ms @ Failure StreamClosedError # [])))"
    by (rule t [THEN conjunct2, THEN conjunct2, THEN mp]) (rule a)
  show ?thesis using n r1 r2 by simp
qed

text \<open>
  C7 as stated fails: \<^verbatim>\<open>disconnect\<close> on the connected example client sends the
  notification and goes on to poll; in that state \<^verbatim>\<open>connected\<close> is true, and with
  no acknowledgement arriving the polling never ends.
\<close>

theorem connected_while_disconnecting_counterexample:
  "disconnect_notify example_client = Inr example_disconnecting
   \<and> connected example_disconnecting
   \<and> disconnect example_client [] = None"
  by (simp add: disconnect_def disconnect_notify_def example_client_def
      example_disconnecting_def stream_send_message_def fresh_stream_def connected_def)

text \<open>
  C8 (as amended). Construction connects: the constructor calls \<^verbatim>\<open>connect\<close>, so it
  returns with the client connected and the receive loop scheduled when the connection
  attempt succeeds, raises the error of the attempt when it fails (an error other than
  a \<^verbatim>\<open>queue.Empty\<close>, which is left aside here), and does not return while the attempt
  is pending; a client whose constructor has returned is connected. A closed
  connection is terminal only when \<^verbatim>\<open>disconnect\<close> closed it: after a \<^verbatim>\<open>disconnect\<close> of a
  connected client that has returned, the client is disconnected, the stop of the
  IOLoop is scheduled, and no later \<^verbatim>\<open>connect\<close> returns normally. The receive loop
  schedules nothing on the IOLoop, so a connection that the loop alone has closed is
  on a running IOLoop, and once no error is pending a \<^verbatim>\<open>connect\<close> whose attempt
  succeeds returns normally with the client connected again and a receive loop
  scheduled.
\<close>

theorem construction_connects:
  "init h p (ConnEstablished s) =
     Some (Returned (),
           (new_client h p)\<lparr>stream := Some s, callbacks := [CbConnect, CbReceive]\<rparr>)
   \<and> (e \<noteq> QueueEmpty \<longrightarrow>
        init h p (ConnRaised e) =
          Some (Raised e, (new_client h p)\<lparr>callbacks := [CbConnect]\<rparr>))
   \<and> init h p ConnPending = None
   \<and> (init h p oc = Some (Returned (), c) \<longrightarrow> connected c)
   \<and> (connected c0 \<and> disconnect c0 evs = Some (w, Returned (), c') \<longrightarrow>
        \<not> connected c' \<and> ioloop_stopped c'
        \<and> (\<forall>oc' c''. connect c' oc' \<noteq> Some (Returned (), c'')))
   \<and> ioloop_stopped (snd (receive c0 evs)) = ioloop_stopped c0
   \<and> (stream c2 = None \<and> exception_queue c2 = [] \<and> \<not> ioloop_stopped c2 \<longrightarrow>
        connect c2 (ConnEstablished s) =
          Some (Returned (),
                c2\<lparr>stream := Some s, callbacks := callbacks c2 @ [CbConnect, CbReceive]\<rparr>)
        \<and> connected
            (c2\<lparr>stream := Some s, callbacks := callbacks c2 @ [CbConnect, CbReceive]\<rparr>))"
proof -
  have p1: "init h p (ConnEstablished s) =
     Some (Returned (),
           (new_client h p)\<lparr>stream := Some s, callbacks := [CbConnect, CbReceive]\<rparr>)"
    by (rule init_established)
  have p2: "e \<noteq> QueueEmpty \<longrightarrow>
      init h p (ConnRaised e) = Some (Raised e, (new_client h p)\<lparr>callbacks := [CbConnect]\<rparr>)"
    by (simp add: init_raised add_callback_def new_client_def)
  have p3: "init h p ConnPending = None"
    by (rule init_pending)
  have p4: "init h p oc = Some (Returned (), c) \<longrightarrow> connected c"
    by (simp add: init_returned)
  have p5: "connected c0 \<and> disconnect c0 evs = Some (w, Returned (), c') \<longrightarrow>
        \<not> connected c' \<and> ioloop_stopped c'
        \<and> (\<forall>oc' c''. connect c' oc' \<noteq> Some (Returned (), c''))"
  proof
    assume a: "connected c0 \<and> disconnect c0 evs = Some (w, Returned (), c')"
    have "\<exists>c1. disconnect_notify c0 = Inr c1"
    proof (cases "disconnect_notify c0")
      case (Inl r)
      with a show ?thesis
        by (auto simp: connected_def disconnect_def disconnect_notify_def
            split: option.splits sum.splits)
    next
      case (Inr c1)
      then show ?thesis by blast
    qed
    then obtain c1 where n: "disconnect_notify c0 = Inr c1" by blast
    obtain st c3 where r: "receive c1 evs = (st, c3)" by (cases "receive c1 evs")
    from a n r have c': "\<not> connected c3" "c' = add_callback c3 CbStop"
      by (auto simp: disconnect_def split: if_splits)
    then have nc: "stream c' = None" and st: "ioloop_stopped c'"
      by (simp_all add: connected_def add_callback_def ioloop_stopped_def)
    have "connect c' oc' \<noteq> Some (Returned (), c'')" for oc' c''
      using nc st by (rule connect_stopped)
    with nc st show "\<not> connected c' \<and> ioloop_stopped c'
        \<and> (\<forall>oc' c''. connect c' oc' \<noteq> Some (Returned (), c''))"
      by (simp add: connected_def)
  qed
  have p6: "ioloop_stopped (snd (receive c0 evs)) = ioloop_stopped c0"
    by (simp add: ioloop_stopped_def receive_callbacks)
  have p7: "stream c2 = None \<and> exception_queue c2 = [] \<and> \<not> ioloop_stopped c2 \<longrightarrow>
        connect c2 (ConnEstablished s) =
          Some (Returned (),
                c2\<lparr>stream := Some s, callbacks := callbacks c2 @ [CbConnect, CbReceive]\<rparr>)
        \<and> connected
            (c2\<lparr>stream := Some s, callbacks := callbacks c2 @ [CbConnect, CbReceive]\<rparr>)"
    by (simp add: connect_not_stopped_established connected_def)
  show ?thesis by (intro conjI p1 p2 p3 p4 p5 p6 p7)
qed

theorem construction_connects_witness:
  "init ''server'' 9000 (ConnEstablished fresh_stream) = Some (Returned (), example_client)
   \<and> connected example_client
   \<and> init ''server'' 9000 (ConnRaised StreamClosedError) =
       Some (Raised StreamClosedError, (new_client ''server'' 9000)\<lparr>callbacks := [CbConnect]\<rparr>)
   \<and> disconnect example_client [Message AckClientDisconnect] =
       Some ([], Returned (),
             example_client\<lparr>stream := None, callbacks := [CbConnect, CbReceive, CbStop],
               dropped := [fresh_stream\<lparr>sent := [NotifyClientDisconnect], close_calls := 1\<rparr>]\<rparr>)
   \<and> ioloop_stopped
       (example_client\<lparr>stream := None, callbacks := [CbConnect, CbReceive, CbStop],
               dropped := [fresh_stream\<lparr>sent := [NotifyClientDisconnect], close_calls := 1\<rparr>]\<rparr>)
   \<and> connect example_failed_seen (ConnEstablished fresh_stream) =
       Some (Returned (),
             example_failed_seen\<lparr>stream := Some fresh_stream,
               callbacks := [CbConnect, CbReceive, CbConnect, CbReceive]\<rparr>)"
proof -
  let ?c' = "example_client\<lparr>stream := None, callbacks := [CbConnect, CbReceive, CbStop],
               dropped := [fresh_stream\<lparr>sent := [NotifyClientDisconnect], close_calls := 1\<rparr>]\<rparr>"
  have i: "init ''server'' 9000 (ConnEstablished fresh_stream) = Some (Returned (), example_client)"
    using construction_connects [THEN conjunct1, of "''server''" 9000 fresh_stream]
    by (simp add: new_client_def example_client_def)
  have k: "connected example_client"
    by (rule construction_connects [THEN conjunct2, THEN conjunct2, THEN conjunct2,
          THEN conjunct1, THEN mp]) (rule i)
  have n: "StreamClosedError \<noteq> QueueEmpty" by simp
  have j: "init ''server'' 9000 (ConnRaised StreamClosedError) =
      Some (Raised StreamClosedError, (new_client ''server'' 9000)\<lparr>callbacks := [CbConnect]\<rparr>)"
    by (rule construction_connects [THEN conjunct2, THEN conjunct1, THEN mp]) (rule n)
  have d: "disconnect example_client [Message AckClientDisconnect] = Some ([], Returned (), ?c')"
    by (simp add: disconnect_def disconnect_notify_def example_client_def fresh_stream_def
        stream_send_message_def close_and_clear_def stream_close_def connected_def
        add_callback_def)
  have kd: "connected example_client
      \<and> disconnect example_client [Message AckClientDisconnect] = Some ([], Returned (), ?c')"
    using k d by blast
  have t: "\<not> connected ?c' \<and> ioloop_stopped ?c'
      \<and> (\<forall>oc' c''. connect ?c' oc' \<noteq> Some (Returned (), c''))"
    by (rule construction_connects [THEN conjunct2, THEN conjunct2, THEN conjunct2,
          THEN conjunct2, THEN conjunct1, THEN mp]) (rule kd)
  have f: "stream example_failed_seen = None \<and> exception_queue example_failed_seen = []
      \<and> \<not> ioloop_stopped example_failed_seen"
    by (simp add: example_failed_seen_def example_failed_def example_client_def
        ioloop_stopped_def)
  have u: "connect example_failed_seen (ConnEstablished fresh_stream) =
      Some (Returned (),
            example_failed_seen\<lparr>stream := Some fresh_stream,
              callbacks := callbacks example_failed_seen @ [CbConnect, CbReceive]\<rparr>)"
    by (rule construction_connects [THEN conjunct2, THEN conjunct2, THEN conjunct2,
          THEN conjunct2, THEN conjunct2, THEN conjunct2, THEN mp, THEN conjunct1]) (rule f)
  have cb: "callbacks example_failed_seen = [CbConnect, CbReceive]"
    by (simp add: example_failed_seen_def example_failed_def example_client_def)
  show ?thesis using i k j d t u by (simp add: cb)
qed

text \<open>
  C8 as stated fails twice. The constructor, with a connection attempt that succeeds,
  returns a client that is connected and has its receive loop scheduled. And a closed
  connection can be used again: the receive loop of that client meets a failure and
  closes the connection, the next call raises the error, and a \<^verbatim>\<open>connect\<close> whose attempt
  succeeds then returns normally with the client connected. Also, a connection attempt
  that fails with a \<^verbatim>\<open>queue.Empty\<close> is not raised by the constructor: the polling loop
  takes it off the exception queue and goes on polling.
\<close>

theorem constructed_connected_and_closed_reused_counterexample:
  "init ''server'' 9000 (ConnEstablished fresh_stream) = Some (Returned (), example_client)
   \<and> connected example_client
   \<and> callbacks example_client = [CbConnect, CbReceive]
   \<and> receive example_client [Failure StreamClosedError] = (Exited, example_failed)
   \<and> \<not> connected example_failed
   \<and> call example_failed (GetMessage None) = Some (Raised StreamClosedError, example_failed_seen)
   \<and> connect example_failed_seen (ConnEstablished fresh_stream) =
       Some (Returned (),
             example_failed_seen\<lparr>stream := Some fresh_stream,
               callbacks := [CbConnect, CbReceive, CbConnect, CbReceive]\<rparr>)
   \<and> connected
       (example_failed_seen\<lparr>stream := Some fresh_stream,
          callbacks := [CbConnect, CbReceive, CbConnect, CbReceive]\<rparr>)
   \<and> init ''server'' 9000 (ConnRaised QueueEmpty) = None"
proof -
  let ?c1 = "add_callback (new_client ''server'' 9000) CbConnect"
  have "wait_connected (?c1\<lparr>exception_queue := [QueueEmpty]\<rparr>) =
      wait_connected (?c1\<lparr>exception_queue := [QueueEmpty]\<rparr>\<lparr>exception_queue := []\<rparr>)"
    by (rule wait_connected_queue_empty)
      (simp_all add: connected_def add_callback_def new_client_def)
  also have "\<dots> = None"
    by (rule wait_connected_idle) (simp_all add: connected_def add_callback_def new_client_def)
  finally have q: "init ''server'' 9000 (ConnRaised QueueEmpty) = None"
    by (simp add: init_def connect_def connected_def check_for_errors_def add_callback_def
        new_client_def ioloop_stopped_def connect_coro_def)
  have i: "init ''server'' 9000 (ConnEstablished fresh_stream) = Some (Returned (), example_client)"
    by (simp add: init_established new_client_def example_client_def)
  have k: "connected example_client \<and> callbacks example_client = [CbConnect, CbReceive]"
    by (simp add: connected_def example_client_def)
  have r: "receive example_client [Failure StreamClosedError] = (Exited, example_failed)"
    by (simp add: example_client_def example_failed_def fresh_stream_def close_and_clear_def
        stream_close_def)
  have nf: "\<not> connected example_failed"
    by (simp add: connected_def example_failed_def)
  have g: "call example_failed (GetMessage None) =
      Some (Raised StreamClosedError, example_failed_seen)"
    by (simp add: call_def get_message_def check_for_errors_def example_failed_def
        example_failed_seen_def)
  have u: "connect example_failed_seen (ConnEstablished fresh_stream) =
       Some (Returned (),
             example_failed_seen\<lparr>stream := Some fresh_stream,
               callbacks := callbacks example_failed_seen @ [CbConnect, CbReceive]\<rparr>)"
    by (rule connect_not_stopped_established)
      (simp_all add: example_failed_seen_def example_failed_def example_client_def
        ioloop_stopped_def)
  have cb: "callbacks example_failed_seen = [CbConnect, CbReceive]"
    by (simp add: example_failed_seen_def example_failed_def example_client_def)
  show ?thesis using i k r nf g u q by (simp add: cb connected_def)
qed

text \<open>
  C9. \<^verbatim>\<open>disconnect\<close> on a client that is not connected logs one warning, returns
  normally and leaves the client as it is; this is what a second \<^verbatim>\<open>disconnect\<close> does
  after a first one has returned normally.
\<close>

theorem disconnect_idempotent:
  "(\<not> connected c \<longrightarrow>
      disconnect c evs =
        Some ([''Called disconnect() on disconnected client''], Returned (), c))
   \<and> (disconnect c evs = Some (w, Returned (), c') \<longrightarrow>
      disconnect c' evs' =
        Some ([''Called disconnect() on disconnected client''], Returned (), c'))"
proof (intro conjI impI)
  assume "\<not> connected c"
  then show "disconnect c evs =
      Some ([''Called disconnect() on disconnected client''], Returned (), c)"
    by (simp add: disconnect_def disconnect_notify_def connected_def)
next
  assume a: "disconnect c evs = Some (w, Returned (), c')"
  have "stream c' = None"
  proof (cases "disconnect_notify c")
    case (Inl r)
    with a show ?thesis
      by (auto simp: disconnect_def disconnect_notify_def split: option.splits sum.splits)
  next
    case (Inr c1)
    obtain st c2 where r: "receive c1 evs = (st, c2)" by (cases "receive c1 evs")
    with a Inr show ?thesis
      by (auto simp: disconnect_def connected_def add_callback_def split: if_splits)
  qed
  then show "disconnect c' evs' =
      Some ([''Called disconnect() on disconnected client''], Returned (), c')"
    by (simp add: disconnect_def disconnect_notify_def)
qed

theorem disconnect_idempotent_witness:
  "\<not> connected example_closed
   \<and> disconnect example_closed [] =
       Some ([''Called disconnect() on disconnected client''], Returned (), example_closed)
   \<and> disconnect example_client [Message AckClientDisconnect] =
       Some ([], Returned (),
             example_client\<lparr>stream := None, callbacks := [CbConnect, CbReceive, CbStop],
               dropped := [fresh_stream\<lparr>sent := [NotifyClientDisconnect], close_calls := 1\<rparr>]\<rparr>)
   \<and> disconnect (example_client\<lparr>stream := None, callbacks := [CbConnect, CbReceive, CbStop],
               dropped := [fresh_stream\<lparr>sent := [NotifyClientDisconnect], close_calls := 1\<rparr>]\<rparr>)
        [Message AckClientDisconnect] =
       Some ([''Called disconnect() on disconnected client''], Returned (),
             example_client\<lparr>stream := None, callbacks := [CbConnect, CbReceive, CbStop],
               dropped := [fresh_stream\<lparr>sent := [NotifyClientDisconnect], close_calls := 1\<rparr>]\<rparr>)"
proof -
  let ?c' = "example_client\<lparr>stream := None, callbacks := [CbConnect, CbReceive, CbStop],
               dropped := [fresh_stream\<lparr>sent := [NotifyClientDisconnect], close_calls := 1\<rparr>]\<rparr>"
  have n: "\<not> connected example_closed"
    by (simp add: connected_def example_closed_def)
  have r1: "disconnect example_closed [] =
      Some ([''Called disconnect() on disconnected client''], Returned (), example_closed)"
    by (rule disconnect_idempotent [THEN conjunct1, THEN mp]) (rule n)
  have d: "disconnect example_client [Message AckClientDisconnect] = Some ([], Returned (), ?c')"
    by (simp add: disconnect_def disconnect_notify_def example_client_def fresh_stream_def
        stream_send_message_def close_and_clear_def stream_close_def connected_def
        add_callback_def)
  have r2: "disconnect ?c' [Message AckClientDisconnect] =
      Some ([''Called disconnect() on disconnected client''], Returned (), ?c')"
    by (rule disconnect_idempotent [THEN conjunct2, THEN mp]) (rule d)
  show ?thesis using n r1 d r2 by simp
qed

text \<open>
  C10. When the stream's send raises while \<^verbatim>\<open>send_message\<close> writes a message on a
  connected client with no error pending, \<^verbatim>\<open>send_message\<close> raises that exception and
  leaves the client as it was: nothing is put on the exception queue, the stream
  reference stays set, \<^verbatim>\<open>connected\<close> is still true.
\<close>

theorem send_failure_propagates_unrecorded:
  assumes "stream c = Some s" and "exception_queue c = []"
    and "stream_send_message s m = Inl e"
  shows "send_message c m = (Raised e, c)
       \<and> exception_queue (snd (send_message c m)) = []
       \<and> stream (snd (send_message c m)) = Some s
       \<and> connected (snd (send_message c m))"
  using assms by (simp add: send_message_def check_for_errors_def connected_def)

theorem send_failure_propagates_unrecorded_witness:
  "stream (example_client\<lparr>stream := Some (fresh_stream\<lparr>send_fault := Some StreamClosedError\<rparr>)\<rparr>) =
     Some (fresh_stream\<lparr>send_fault := Some StreamClosedError\<rparr>)
   \<and> stream_send_message (fresh_stream\<lparr>send_fault := Some StreamClosedError\<rparr>) (Payload ''x'') =
       Inl StreamClosedError
   \<and> send_message
       (example_client\<lparr>stream := Some (fresh_stream\<lparr>send_fault := Some StreamClosedError\<rparr>)\<rparr>)
       (Payload ''x'') =
     (Raised StreamClosedError,
      example_client\<lparr>stream := Some (fresh_stream\<lparr>send_fault := Some StreamClosedError\<rparr>)\<rparr>)
   \<and> connected
       (example_client\<lparr>stream := Some (fresh_stream\<lparr>send_fault := Some StreamClosedError\<rparr>)\<rparr>)"
proof -
  let ?s = "fresh_stream\<lparr>send_fault := Some StreamClosedError\<rparr>"
  let ?c = "example_client\<lparr>stream := Some ?s\<rparr>"
  have a: "stream ?c = Some ?s" by simp
  have b: "exception_queue ?c = []" by (simp add: example_client_def)
  have d: "stream_send_message ?s (Payload ''x'') = Inl StreamClosedError"
    by (simp add: stream_send_message_def)
  from send_failure_propagates_unrecorded [OF a b d]
  have r1: "send_message ?c (Payload ''x'') = (Raised StreamClosedError, ?c)"
    and r2: "connected (snd (send_message ?c (Payload ''x'')))"
    by blast+
  from r2 have "connected ?c" by (simp add: r1)
  with r1 a d show ?thesis by blast
qed

end
